theory Spec2Isabelle
  imports Main "HOL-Library.Sublist"
begin

section \<open>JavaScript strings\<close>

text \<open>
  The parsers of \<^verbatim>\<open>src/App.tsx\<close> work on JavaScript strings, which are sequences of
  UTF-16 code units. A \<^typ>\<open>char\<close> stands here for one code unit in the range
  U+0000..U+00FF, so a \<^typ>\<open>string\<close> is a JavaScript string over that range. On this
  range the white space of \<^verbatim>\<open>trim\<close> and of the regular expression class \<^verbatim>\<open>\s\<close> is
  TAB, LF, VT, FF, CR, SPACE and NO-BREAK SPACE, the class \<^verbatim>\<open>\d\<close> is \<^verbatim>\<open>0\<close>..\<^verbatim>\<open>9\<close>, and
  \<^verbatim>\<open>toLowerCase\<close> moves \<^verbatim>\<open>A\<close>..\<^verbatim>\<open>Z\<close> and U+00C0..U+00DE (without U+00D7) up by 32.
\<close>

definition isWhiteSpace :: "char \<Rightarrow> bool" where
  "isWhiteSpace c =
     (c = CHR 0x09 \<or> c = CHR 0x0A \<or> c = CHR 0x0B \<or> c = CHR 0x0C \<or> c = CHR 0x0D
      \<or> c = CHR 0x20 \<or> c = CHR 0xA0)"

definition isDigit :: "char \<Rightarrow> bool" where
  "isDigit c = (let n = (of_char c :: nat) in 48 \<le> n \<and> n \<le> 57)"

definition toLowerCaseChar :: "char \<Rightarrow> char" where
  "toLowerCaseChar c =
     (let n = (of_char c :: nat) in
      if (65 \<le> n \<and> n \<le> 90) \<or> (192 \<le> n \<and> n \<le> 222 \<and> n \<noteq> 215)
      then char_of (n + 32) else c)"

definition toLowerCase :: "string \<Rightarrow> string" where
  "toLowerCase s = map toLowerCaseChar s"

text \<open>\<^verbatim>\<open>s.trim()\<close>: white space is removed at both ends.\<close>

definition trim :: "string \<Rightarrow> string" where
  "trim s = rev (dropWhile isWhiteSpace (rev (dropWhile isWhiteSpace s)))"

text \<open>\<^verbatim>\<open>s.includes(t)\<close>: \<open>t\<close> occurs in \<open>s\<close> as a contiguous run of code units.\<close>

definition includes_str :: "string \<Rightarrow> string \<Rightarrow> bool" where
  "includes_str s t = sublist t s"

text \<open>
  \<^verbatim>\<open>s.split(sep)\<close> for a separator of one code unit, as in \<^verbatim>\<open>split('\n')\<close>,
  \<^verbatim>\<open>split(':')\<close>, \<^verbatim>\<open>split('-')\<close> and \<^verbatim>\<open>split(',')\<close>: the pieces between the
  separators, in order; the result is never empty, and the empty string gives \<^verbatim>\<open>[""]\<close>.
\<close>

function split_char :: "char \<Rightarrow> string \<Rightarrow> string list" where
  "split_char sep s =
     (case dropWhile (\<lambda>c. c \<noteq> sep) s of
        [] \<Rightarrow> [takeWhile (\<lambda>c. c \<noteq> sep) s]
      | _ # rest \<Rightarrow> takeWhile (\<lambda>c. c \<noteq> sep) s # split_char sep rest)"
  by pat_completeness auto
termination
proof (relation "measure (\<lambda>(sep, s). length s)")
  fix sep :: char and s :: string and x rest
  assume "dropWhile (\<lambda>c. c \<noteq> sep) s = x # rest"
  then have "length rest < length (dropWhile (\<lambda>c. c \<noteq> sep) s)"
    by simp
  also have "\<dots> \<le> length s"
    by (rule length_dropWhile_le)
  finally show "((sep, rest), (sep, s)) \<in> measure (\<lambda>(sep, s). length s)"
    by simp
qed simp

declare split_char.simps [simp del]

text \<open>\<^verbatim>\<open>parts.join(sep)\<close>.\<close>

fun join :: "string \<Rightarrow> string list \<Rightarrow> string" where
  "join sep [] = []"
| "join sep [x] = x"
| "join sep (x # y # ys) = x @ sep @ join sep (y # ys)"

section \<open>Splitting on a regular expression\<close>

text \<open>
  \<^verbatim>\<open>s.split(re)\<close> scans the string from left to right. \<open>matcher rest\<close> is the length of
  the match of \<^verbatim>\<open>re\<close> that starts at the current position, where \<open>rest\<close> is the text from
  that position on (neither expression of the program looks behind the position). \<open>cur\<close>
  is the text between the end \<open>p\<close> of the last separator and the current position \<open>q\<close>.
  A match that ends at \<open>p\<close> (an empty match right after the last separator) is passed over;
  any other match closes the piece \<open>cur\<close> and the scan goes on behind the match.
\<close>

function js_split_loop :: "(string \<Rightarrow> nat option) \<Rightarrow> string \<Rightarrow> string \<Rightarrow> string list" where
  "js_split_loop matcher cur [] = [cur]"
| "js_split_loop matcher cur (c # cs) =
     (case matcher (c # cs) of
        None \<Rightarrow> js_split_loop matcher (cur @ [c]) cs
      | Some n \<Rightarrow>
          if n = 0 \<and> cur = [] then js_split_loop matcher (cur @ [c]) cs
          else cur # js_split_loop matcher [] (drop n (c # cs)))"
  by pat_completeness auto
termination
  by (relation "measures [\<lambda>(matcher, cur, rest). length rest, \<lambda>(matcher, cur, rest). length cur]")
     auto

definition js_split :: "(string \<Rightarrow> nat option) \<Rightarrow> string \<Rightarrow> string list" where
  "js_split matcher s =
     (if s = [] then (case matcher [] of None \<Rightarrow> [[]] | Some _ \<Rightarrow> [])
      else js_split_loop matcher [] s)"

text \<open>
  The expression \<^verbatim>\<open>/\d+\.\s+/\<close> at the head of \<open>s\<close>: one or more digits, a full stop,
  one or more white-space characters. Both repetitions are greedy, and giving back a
  digit or a white-space character never makes the rest of the expression match, so
  the match, if there is one, takes every digit and every white-space character.
\<close>

definition marker_len :: "string \<Rightarrow> nat option" where
  "marker_len s =
     (let ds = takeWhile isDigit s in
      if ds = [] then None
      else case dropWhile isDigit s of
             [] \<Rightarrow> None
           | c # r \<Rightarrow>
               if c \<noteq> CHR ''.'' then None
               else let ws = takeWhile isWhiteSpace r in
                    if ws = [] then None else Some (length ds + 1 + length ws))"

text \<open>\<^verbatim>\<open>text.split(/\d+\.\s+/)\<close>, the first statement of each of the three parsers.\<close>

definition record_split :: "string \<Rightarrow> string list" where
  "record_split text = js_split marker_len text"

section \<open>The data model\<close>

text \<open>
  The interfaces \<^verbatim>\<open>Competitor\<close>, \<^verbatim>\<open>Application\<close> and \<^verbatim>\<open>CustomerPersona\<close>. The two
  optional properties of a persona are options. While a record is being read, the
  program holds a \<^verbatim>\<open>Partial<...>\<close> object, whose properties are set one by one: it is a
  map from property names to values.
\<close>

record Competitor =
  name :: string
  description :: string
  headquarters :: string
  revenue :: string

record Application =
  name :: string
  description :: string
  marketSize :: string
  growthRate :: string

record CustomerPersona =
  name :: string
  description :: string
  caresMostAbout :: string
  caresLeastAbout :: string
  potentialCustomers :: "string list"
  salesEmail :: "string option"
  discoveryEmail :: "string option"

type_synonym partial = "string \<rightharpoonup> string"

text \<open>A property is truthy when it is set and its string is not empty.\<close>

definition truthy :: "string option \<Rightarrow> bool" where
  "truthy v = (case v of None \<Rightarrow> False | Some s \<Rightarrow> s \<noteq> [])"

text \<open>The value of a property that is set; an unset property reads as the empty string
  here, and the parsers read a property only after they have found it truthy.\<close>

definition get_prop :: "partial \<Rightarrow> string \<Rightarrow> string" where
  "get_prop obj k = (case obj k of None \<Rightarrow> [] | Some s \<Rightarrow> s)"

section \<open>Reading one line\<close>

text \<open>
  The same three statements open the body of the inner loop of each parser:
  \<^verbatim>\<open>const [key, ...valueParts] = line.split(':').map(part => part.trim());\<close>
  \<^verbatim>\<open>const value = valueParts.join(':').trim();\<close>
  \<^verbatim>\<open>if (!key || !value) continue;\<close>
  \<open>key_value line\<close> is \<open>None\<close> when the loop body continues with the next line, and the
  pair of \<^verbatim>\<open>key\<close> and \<^verbatim>\<open>value\<close> otherwise.
\<close>

definition key_value :: "string \<Rightarrow> (string \<times> string) option" where
  "key_value line =
     (case map trim (split_char CHR '':'' line) of
        [] \<Rightarrow> None
      | key # valueParts \<Rightarrow>
          (let val = trim (join '':'' valueParts) in
           if key = [] \<or> val = [] then None else Some (key, val)))"

text \<open>
  The body of the inner loop of a parser, after these statements, is a
  \<^verbatim>\<open>switch (key.toLowerCase())\<close> that sets one property of the partial object for each
  of four labels and does nothing for any other key. The inner loop itself runs over
  \<^verbatim>\<open>section.split('\n')\<close> from the object the parser starts with.
\<close>

section \<open>parseCompetitors\<close>

definition competitor_line :: "partial \<Rightarrow> string \<Rightarrow> partial" where
  "competitor_line competitor line =
     (case key_value line of
        None \<Rightarrow> competitor
      | Some (key, val) \<Rightarrow>
          (let k = toLowerCase key in
           if k = ''name'' then competitor(''name'' \<mapsto> val)
           else if k = ''description'' then competitor(''description'' \<mapsto> val)
           else if k = ''headquarters'' then competitor(''headquarters'' \<mapsto> val)
           else if k = ''revenue'' then competitor(''revenue'' \<mapsto> val)
           else competitor))"

definition competitor_of_section :: "string \<Rightarrow> partial" where
  "competitor_of_section section = foldl competitor_line Map.empty (split_char CHR 0x0A section)"

text \<open>\<^verbatim>\<open>competitor.name && competitor.description && competitor.headquarters && competitor.revenue\<close>\<close>

definition competitor_complete :: "partial \<Rightarrow> bool" where
  "competitor_complete competitor =
     (truthy (competitor ''name'') \<and> truthy (competitor ''description'') \<and>
      truthy (competitor ''headquarters'') \<and> truthy (competitor ''revenue''))"

text \<open>\<^verbatim>\<open>competitor as Competitor\<close>\<close>

definition as_Competitor :: "partial \<Rightarrow> Competitor" where
  "as_Competitor competitor =
     \<lparr> Competitor.name = get_prop competitor ''name'',
       Competitor.description = get_prop competitor ''description'',
       headquarters = get_prop competitor ''headquarters'',
       revenue = get_prop competitor ''revenue'' \<rparr>"

text \<open>The outer loop \<^verbatim>\<open>for (const section of sections)\<close>, with the array
  \<^verbatim>\<open>competitors\<close> it pushes to.\<close>

fun competitors_loop :: "string list \<Rightarrow> Competitor list \<Rightarrow> Competitor list" where
  "competitors_loop [] competitors = competitors"
| "competitors_loop (section # sections) competitors =
     (if trim section = [] then competitors_loop sections competitors
      else let competitor = competitor_of_section section in
           if competitor_complete competitor
           then competitors_loop sections (competitors @ [as_Competitor competitor])
           else competitors_loop sections competitors)"

definition parseCompetitors :: "string \<Rightarrow> Competitor list" where
  "parseCompetitors text = competitors_loop (record_split text) []"

section \<open>parseApplications\<close>

definition application_line :: "partial \<Rightarrow> string \<Rightarrow> partial" where
  "application_line application line =
     (case key_value line of
        None \<Rightarrow> application
      | Some (key, val) \<Rightarrow>
          (let k = toLowerCase key in
           if k = ''name'' then application(''name'' \<mapsto> val)
           else if k = ''description'' then application(''description'' \<mapsto> val)
           else if k = ''market size'' then application(''marketSize'' \<mapsto> val)
           else if k = ''growth rate'' then application(''growthRate'' \<mapsto> val)
           else application))"

definition application_of_section :: "string \<Rightarrow> partial" where
  "application_of_section section = foldl application_line Map.empty (split_char CHR 0x0A section)"

definition application_complete :: "partial \<Rightarrow> bool" where
  "application_complete application =
     (truthy (application ''name'') \<and> truthy (application ''description'') \<and>
      truthy (application ''marketSize'') \<and> truthy (application ''growthRate''))"

definition as_Application :: "partial \<Rightarrow> Application" where
  "as_Application application =
     \<lparr> Application.name = get_prop application ''name'',
       Application.description = get_prop application ''description'',
       marketSize = get_prop application ''marketSize'',
       growthRate = get_prop application ''growthRate'' \<rparr>"

fun applications_loop :: "string list \<Rightarrow> Application list \<Rightarrow> Application list" where
  "applications_loop [] applications = applications"
| "applications_loop (section # sections) applications =
     (if trim section = [] then applications_loop sections applications
      else let application = application_of_section section in
           if application_complete application
           then applications_loop sections (applications @ [as_Application application])
           else applications_loop sections applications)"

definition parseApplications :: "string \<Rightarrow> Application list" where
  "parseApplications text = applications_loop (record_split text) []"

section \<open>The email templates\<close>

text \<open>
  \<^verbatim>\<open>persona.caresMostAbout.split(',')[0]\<close> inside a template literal: the first piece;
  an index out of range would read \<^verbatim>\<open>undefined\<close> and print as that word.
\<close>

definition first_segment :: "string \<Rightarrow> string" where
  "first_segment s = (case split_char CHR '','' s of [] \<Rightarrow> ''undefined'' | x # _ \<Rightarrow> x)"

text \<open>The template literals, line by line; the lines are joined by LF and the last line
  has no line end.\<close>

definition generateSalesEmail :: "CustomerPersona \<Rightarrow> string \<Rightarrow> string" where
  "generateSalesEmail persona productName =
     join [CHR 0x0A]
       [''Subject: Streamline Your '' @ CustomerPersona.name persona @ [CHR 0x27] @ ''s Workflow with '' @ productName,
        [],
        ''Dear [Name],'',
        [],
        ''I hope this email finds you well. I understand that as a '' @ CustomerPersona.name persona @ '', you'' @ [CHR 0x27] @ ''re focused on '' @ caresMostAbout persona @ ''.'',
        [],
        productName @ '' was specifically designed to address these priorities while eliminating concerns about '' @ caresLeastAbout persona @ ''.'',
        [],
        ''I'' @ [CHR 0x27] @ ''d love to schedule a brief 30-minute call to show you how '' @ productName @ '' can help you:'',
        ''- Maximize '' @ first_segment (caresMostAbout persona),
        ''- Streamline your workflow'',
        ''- Achieve better results with less effort'',
        [],
        ''Would you be available for a quick call this week? I have slots open on Tuesday at 2 PM or Thursday at 10 AM.'',
        [],
        ''Best regards,'',
        ''[Your name]'']"

definition generateDiscoveryEmail :: "CustomerPersona \<Rightarrow> string \<Rightarrow> string" where
  "generateDiscoveryEmail persona productName =
     join [CHR 0x0A]
       [''Subject: Quick question about your '' @ CustomerPersona.name persona @ '' challenges'',
        [],
        ''Hi [Name],'',
        [],
        ''I'' @ [CHR 0x27] @ ''m reaching out because we'' @ [CHR 0x27] @ ''ve been working with several '' @ CustomerPersona.name persona @ ''s who are dealing with challenges around '' @ caresMostAbout persona @ ''.'',
        [],
        ''I'' @ [CHR 0x27] @ ''d love to learn more about:'',
        ''- How you'' @ [CHR 0x27] @ ''re currently handling these challenges'',
        ''- What solutions you'' @ [CHR 0x27] @ ''ve tried before'',
        ''- What would make the biggest impact on your workflow'',
        [],
        ''Would you be open to a 15-minute conversation to share your insights? Your experience would be invaluable for our research.'',
        [],
        ''Best regards,'',
        ''[Your name]'']"

text \<open>The subject line of an email is its first line.\<close>

definition subject_line :: "string \<Rightarrow> string" where
  "subject_line email = takeWhile (\<lambda>c. c \<noteq> CHR 0x0A) email"

section \<open>parseCustomerPersonas\<close>

definition persona_line :: "partial \<Rightarrow> string \<Rightarrow> partial" where
  "persona_line persona line =
     (case key_value line of
        None \<Rightarrow> persona
      | Some (key, val) \<Rightarrow>
          (let k = toLowerCase key in
           if k = ''name'' then persona(''name'' \<mapsto> val)
           else if k = ''description'' then persona(''description'' \<mapsto> val)
           else if k = ''cares most about'' then persona(''caresMostAbout'' \<mapsto> val)
           else if k = ''cares least about'' then persona(''caresLeastAbout'' \<mapsto> val)
           else persona))"

text \<open>The partial persona starts as \<^verbatim>\<open>{ potentialCustomers: [] }\<close>; that property is
  not touched by the inner loop and is assigned once the persona is complete, so the
  map holds the four string properties only.\<close>

definition persona_of_section :: "string \<Rightarrow> partial" where
  "persona_of_section section = foldl persona_line Map.empty (split_char CHR 0x0A section)"

definition persona_complete :: "partial \<Rightarrow> bool" where
  "persona_complete persona =
     (truthy (persona ''name'') \<and> truthy (persona ''description'') \<and>
      truthy (persona ''caresMostAbout'') \<and> truthy (persona ''caresLeastAbout''))"

text \<open>
  \<^verbatim>\<open>line.split('-')[0].trim()\<close>. The array of a split is never empty (lemma
  \<open>split_char_not_Nil\<close> below), so index 0 is a string and the first branch is never taken.
\<close>

definition customer_label :: "string \<Rightarrow> string" where
  "customer_label line = (case split_char CHR ''-'' line of [] \<Rightarrow> [] | x # _ \<Rightarrow> trim x)"

text \<open>
  \<^verbatim>\<open>customersText.split('\n').filter(line => line.toLowerCase().includes(persona.name?.toLowerCase() || ''))\<close>
  \<^verbatim>\<open>.map(line => line.split('-')[0].trim()).filter(customer => customer.length > 0)\<close>
  The needle is the empty string when the name is unset or lowers to the empty string.
\<close>

definition relevantCustomers :: "string \<Rightarrow> partial \<Rightarrow> string list" where
  "relevantCustomers customersText persona =
     (let needle = (case persona ''name'' of None \<Rightarrow> [] | Some n \<Rightarrow> toLowerCase n) in
      filter (\<lambda>customer. length customer > 0)
        (map customer_label
           (filter (\<lambda>line. includes_str (toLowerCase line) needle)
              (split_char CHR 0x0A customersText))))"

definition as_CustomerPersona :: "partial \<Rightarrow> string list \<Rightarrow> CustomerPersona" where
  "as_CustomerPersona persona customers =
     \<lparr> CustomerPersona.name = get_prop persona ''name'',
       CustomerPersona.description = get_prop persona ''description'',
       caresMostAbout = get_prop persona ''caresMostAbout'',
       caresLeastAbout = get_prop persona ''caresLeastAbout'',
       potentialCustomers = customers,
       salesEmail = None,
       discoveryEmail = None \<rparr>"

fun personas_loop :: "string \<Rightarrow> string list \<Rightarrow> CustomerPersona list \<Rightarrow> CustomerPersona list" where
  "personas_loop customersText [] personas = personas"
| "personas_loop customersText (section # sections) personas =
     (if trim section = [] then personas_loop customersText sections personas
      else let persona = persona_of_section section in
           if persona_complete persona
           then personas_loop customersText sections
                  (personas @ [as_CustomerPersona persona (relevantCustomers customersText persona)])
           else personas_loop customersText sections personas)"

text \<open>
  \<^verbatim>\<open>productName\<close> is a variable of the enclosing component that the function reads; it
  is a parameter here.
\<close>

definition parseCustomerPersonas :: "string \<Rightarrow> string \<Rightarrow> string \<Rightarrow> CustomerPersona list" where
  "parseCustomerPersonas text customersText productName =
     map (\<lambda>persona. persona\<lparr> salesEmail := Some (generateSalesEmail persona productName),
                             discoveryEmail := Some (generateDiscoveryEmail persona productName) \<rparr>)
       (personas_loop customersText (record_split text) [])"

section \<open>The section splitter of analyzeProduct\<close>






text \<open>
  The part of \<^verbatim>\<open>analyzeProduct\<close> behind the request: a missing or empty response is
  the error \<^verbatim>\<open>No response received from OpenAI\<close>; otherwise the three lists are parsed
  from their sections. The prompt and the response are kept as they are.
\<close>

record RawData =
  prompt :: string
  response :: string

record MarketData =
  competitors :: "Competitor list"
  applications :: "Application list"
  customerPersonas :: "CustomerPersona list"
  rawData :: RawData


section \<open>Notions used in the statements\<close>

text \<open>
  \<open>labelled label line\<close> is the value that a line carries for a label: the line has a
  key that reads \<open>label\<close> in lower case and a value that is not empty. These are the
  lines at which the \<^verbatim>\<open>switch\<close> of a parser sets the property of that label.
\<close>

definition labelled :: "string \<Rightarrow> string \<Rightarrow> string option" where
  "labelled label line =
     (case key_value line of
        None \<Rightarrow> None
      | Some (key, val) \<Rightarrow> if toLowerCase key = label then Some val else None)"

text \<open>The labels of each kind of entity, each with the property it sets.\<close>

definition competitor_fields :: "(string \<times> string) list" where
  "competitor_fields =
     [(''name'', ''name''), (''description'', ''description''),
      (''headquarters'', ''headquarters''), (''revenue'', ''revenue'')]"

definition application_fields :: "(string \<times> string) list" where
  "application_fields =
     [(''name'', ''name''), (''description'', ''description''),
      (''market size'', ''marketSize''), (''growth rate'', ''growthRate'')]"

definition persona_fields :: "(string \<times> string) list" where
  "persona_fields =
     [(''name'', ''name''), (''description'', ''description''),
      (''cares most about'', ''caresMostAbout''), (''cares least about'', ''caresLeastAbout'')]"

text \<open>A required property is missing from a field mapping when it is unset or empty.\<close>

definition missing :: "partial \<Rightarrow> string \<Rightarrow> bool" where
  "missing obj k = (obj k = None \<or> obj k = Some [])"

text \<open>
  The number of numbered markers of a text: the matches of \<^verbatim>\<open>/\d+\.\s+/\<close> from left to
  right, each search starting behind the match before it.
\<close>

function count_markers :: "string \<Rightarrow> nat" where
  "count_markers [] = 0"
| "count_markers (c # cs) =
     (case marker_len (c # cs) of
        None \<Rightarrow> count_markers cs
      | Some n \<Rightarrow> Suc (count_markers (drop n (c # cs))))"
  by pat_completeness auto
termination
proof (relation "measure length")
  fix c :: char and cs :: string and n :: nat
  assume "marker_len (c # cs) = Some n"
  then have "0 < n"
    by (auto simp: marker_len_def Let_def split: if_splits list.splits)
  then show "(drop n (c # cs), c # cs) \<in> measure length"
    by simp
qed simp_all

section \<open>Example texts\<close>

text \<open>
  A competitors section with a complete record, whose revenue is given twice, and a record
  without headquarters; a personas section with one persona; a customers section with a
  line for that persona, a line for nobody, a line without a dash and a line that starts
  with the dash.
\<close>

definition example_acme :: string where
  "example_acme =
     ''Name: Acme'' @ [CHR 0x0A] @
     ''Description: Tools'' @ [CHR 0x0A] @
     ''Headquarters: Berlin, Germany'' @ [CHR 0x0A] @
     ''Revenue: $10B'' @ [CHR 0x0A] @
     ''revenue: $12B (2023: est.)'' @ [CHR 0x0A, CHR 0x0A]"

definition example_bolt :: string where
  "example_bolt =
     ''Name: Bolt'' @ [CHR 0x0A] @
     ''Description: Screws'' @ [CHR 0x0A] @
     ''Revenue: $1M'' @ [CHR 0x0A]"

definition example_competitors :: string where
  "example_competitors =
     ''1. Competitors:'' @ [CHR 0x0A, CHR 0x0A] @ ''1. '' @ example_acme @ ''2. '' @ example_bolt"

definition example_personas :: string where
  "example_personas =
     ''3. Customer Personas:'' @ [CHR 0x0A, CHR 0x0A] @
     ''1. Name: VP of Sales'' @ [CHR 0x0A] @
     ''Description: Runs the sales team'' @ [CHR 0x0A] @
     ''Cares Most About: pipeline growth, forecast accuracy'' @ [CHR 0x0A] @
     ''Cares Least About: implementation details'' @ [CHR 0x0A]"

definition example_customers :: string where
  "example_customers =
     ''4. Potential Customers:'' @ [CHR 0x0A] @
     ''1. VP of Sales at Acme - owns the pipeline'' @ [CHR 0x0A] @
     ''2. Head of IT at Bolt - runs the tools'' @ [CHR 0x0A] @
     ''3. vp of sales, Initech'' @ [CHR 0x0A] @
     ''- VP of Sales''"

definition example_persona :: CustomerPersona where
  "example_persona =
     \<lparr> CustomerPersona.name = ''VP of Sales'',
       CustomerPersona.description = ''Runs the sales team'',
       caresMostAbout = ''pipeline growth, forecast accuracy'',
       caresLeastAbout = ''implementation details'',
       potentialCustomers = [],
       salesEmail = None,
       discoveryEmail = None \<rparr>"

section \<open>Facts about the string operations\<close>

lemma split_char_unfold:
  "split_char sep s =
     takeWhile (\<lambda>c. c \<noteq> sep) s #
       (case dropWhile (\<lambda>c. c \<noteq> sep) s of [] \<Rightarrow> [] | _ # rest \<Rightarrow> split_char sep rest)"
proof (cases "dropWhile (\<lambda>c. c \<noteq> sep) s")
  case Nil
  then show ?thesis using split_char.simps [of sep s] by (simp del: dropWhile_eq_Nil_conv)
next
  case (Cons x rest)
  then show ?thesis using split_char.simps [of sep s] by simp
qed

lemma split_char_not_Nil: "split_char sep s \<noteq> []"
  using split_char_unfold [of sep s] by simp

lemma split_char_no_sep: "sep \<notin> set s \<Longrightarrow> split_char sep s = [s]"
proof -
  assume a: "sep \<notin> set s"
  then have "dropWhile (\<lambda>c. c \<noteq> sep) s = []" "takeWhile (\<lambda>c. c \<noteq> sep) s = s"
    by (auto simp: takeWhile_eq_all_conv)
  then show ?thesis using split_char_unfold [of sep s] by (simp del: dropWhile_eq_Nil_conv)
qed

lemma trim_Nil: "trim [] = []" by (simp add: trim_def)







lemma key_value_no_colon: "CHR '':'' \<notin> set line \<Longrightarrow> key_value line = None"
  by (simp add: key_value_def split_char_no_sep trim_Nil)

lemma key_value_nonempty: "key_value l = Some (k, v) \<Longrightarrow> k \<noteq> [] \<and> v \<noteq> []"
  by (auto simp: key_value_def Let_def split: list.splits if_splits)

lemma labelled_nonempty: "labelled lab l = Some v \<Longrightarrow> v \<noteq> []"
  by (auto simp: labelled_def split: option.splits if_splits dest: key_value_nonempty)





section \<open>Facts about the inner loops\<close>

lemma competitor_line_field:
  assumes "(lab, pr) \<in> set competitor_fields"
  shows "competitor_line obj l pr = (case labelled lab l of Some v \<Rightarrow> Some v | None \<Rightarrow> obj pr)"
proof -
  from assms consider "lab = ''name'' \<and> pr = ''name''" | "lab = ''description'' \<and> pr = ''description''"
    | "lab = ''headquarters'' \<and> pr = ''headquarters''" | "lab = ''revenue'' \<and> pr = ''revenue''"
    unfolding competitor_fields_def by fastforce
  then show ?thesis
  proof cases
    case 1 then show ?thesis by (simp add: competitor_line_def labelled_def Let_def split: option.splits)
  next
    case 2 then show ?thesis by (simp add: competitor_line_def labelled_def Let_def split: option.splits)
  next
    case 3 then show ?thesis by (simp add: competitor_line_def labelled_def Let_def split: option.splits)
  next
    case 4 then show ?thesis by (simp add: competitor_line_def labelled_def Let_def split: option.splits)
  qed
qed

lemma application_line_field:
  assumes "(lab, pr) \<in> set application_fields"
  shows "application_line obj l pr = (case labelled lab l of Some v \<Rightarrow> Some v | None \<Rightarrow> obj pr)"
proof -
  from assms consider "lab = ''name'' \<and> pr = ''name''" | "lab = ''description'' \<and> pr = ''description''"
    | "lab = ''market size'' \<and> pr = ''marketSize''" | "lab = ''growth rate'' \<and> pr = ''growthRate''"
    unfolding application_fields_def by fastforce
  then show ?thesis
  proof cases
    case 1 then show ?thesis by (simp add: application_line_def labelled_def Let_def split: option.splits)
  next
    case 2 then show ?thesis by (simp add: application_line_def labelled_def Let_def split: option.splits)
  next
    case 3 then show ?thesis by (simp add: application_line_def labelled_def Let_def split: option.splits)
  next
    case 4 then show ?thesis by (simp add: application_line_def labelled_def Let_def split: option.splits)
  qed
qed

lemma persona_line_field:
  assumes "(lab, pr) \<in> set persona_fields"
  shows "persona_line obj l pr = (case labelled lab l of Some v \<Rightarrow> Some v | None \<Rightarrow> obj pr)"
proof -
  from assms consider "lab = ''name'' \<and> pr = ''name''" | "lab = ''description'' \<and> pr = ''description''"
    | "lab = ''cares most about'' \<and> pr = ''caresMostAbout''" | "lab = ''cares least about'' \<and> pr = ''caresLeastAbout''"
    unfolding persona_fields_def by fastforce
  then show ?thesis
  proof cases
    case 1 then show ?thesis by (simp add: persona_line_def labelled_def Let_def split: option.splits)
  next
    case 2 then show ?thesis by (simp add: persona_line_def labelled_def Let_def split: option.splits)
  next
    case 3 then show ?thesis by (simp add: persona_line_def labelled_def Let_def split: option.splits)
  next
    case 4 then show ?thesis by (simp add: persona_line_def labelled_def Let_def split: option.splits)
  qed
qed

lemma foldl_keeps:
  assumes step: "\<And>obj l. step obj l k = (case sel l of Some v \<Rightarrow> Some v | None \<Rightarrow> obj k)"
  shows "\<forall>l\<in>set ls. sel l = None \<Longrightarrow> foldl step obj ls k = obj k"
  by (induction ls arbitrary: obj) (simp_all add: step)


section \<open>Facts about the outer loops\<close>

lemma competitors_loop_eq:
  "competitors_loop secs acc =
     acc @ map (\<lambda>s. as_Competitor (competitor_of_section s))
             (filter (\<lambda>s. trim s \<noteq> [] \<and> competitor_complete (competitor_of_section s)) secs)"
  by (induction secs arbitrary: acc) (simp_all add: Let_def)

lemma applications_loop_eq:
  "applications_loop secs acc =
     acc @ map (\<lambda>s. as_Application (application_of_section s))
             (filter (\<lambda>s. trim s \<noteq> [] \<and> application_complete (application_of_section s)) secs)"
  by (induction secs arbitrary: acc) (simp_all add: Let_def)

lemma personas_loop_eq:
  "personas_loop ct secs acc =
     acc @ map (\<lambda>s. as_CustomerPersona (persona_of_section s) (relevantCustomers ct (persona_of_section s)))
             (filter (\<lambda>s. trim s \<noteq> [] \<and> persona_complete (persona_of_section s)) secs)"
  by (induction secs arbitrary: acc) (simp_all add: Let_def)

lemma truthy_get_prop: "truthy (m k) \<Longrightarrow> get_prop m k \<noteq> []"
  by (auto simp: truthy_def get_prop_def split: option.splits)

lemma truthy_missing: "truthy (m k) = (\<not> missing m k)"
  by (auto simp: truthy_def missing_def split: option.splits)

section \<open>Facts about splitting on the numbered marker\<close>

lemma not_digit_stop: "\<not> isDigit CHR ''.''"
  by (simp add: isDigit_def)

lemma marker_len_Some:
  assumes "marker_len s = Some n"
  shows "\<exists>ds w rest. ds \<noteq> [] \<and> (\<forall>d\<in>set ds. isDigit d) \<and> isWhiteSpace w \<and>
        s = ds @ CHR ''.'' # w # rest \<and> 0 < n \<and> n \<le> length s"
proof -
  let ?ds = "takeWhile isDigit s"
  from assms have ds: "?ds \<noteq> []"
    by (auto simp: marker_len_def Let_def split: if_splits)
  from assms ds obtain r where r: "dropWhile isDigit s = CHR ''.'' # r"
    by (auto simp: marker_len_def Let_def split: if_splits list.splits)
  from assms ds r have ws: "takeWhile isWhiteSpace r \<noteq> []"
    and n: "n = length ?ds + 1 + length (takeWhile isWhiteSpace r)"
    by (auto simp: marker_len_def Let_def split: if_splits)
  from ws obtain w rest where wr: "r = w # rest" "isWhiteSpace w"
    by (cases r) (auto split: if_splits)
  have s: "s = ?ds @ CHR ''.'' # w # rest"
    using takeWhile_dropWhile_id [of isDigit s] r wr by simp
  have "length (takeWhile isWhiteSpace r) \<le> length r"
    by (rule length_takeWhile_le)
  moreover have "length s = length ?ds + 1 + length r"
    using arg_cong [OF s, of length] wr by simp
  ultimately have "n \<le> length s" using n by simp
  moreover have "\<forall>d\<in>set ?ds. isDigit d"
    by (auto dest: set_takeWhileD)
  ultimately show ?thesis using ds wr s n by blast
qed

lemma marker_len_shape:
  assumes "ds \<noteq> []" "\<forall>d\<in>set ds. isDigit d" "isWhiteSpace w"
  shows "marker_len (ds @ CHR ''.'' # w # rest) = Some (length ds + 1 + length (takeWhile isWhiteSpace (w # rest)))"
proof -
  have t: "takeWhile isDigit (ds @ CHR ''.'' # w # rest) = ds"
    using assms(2) not_digit_stop by simp
  have d: "dropWhile isDigit (ds @ CHR ''.'' # w # rest) = CHR ''.'' # w # rest"
    using assms(2) not_digit_stop by simp
  show ?thesis
    unfolding marker_len_def t d using assms(1,3) by (simp add: Let_def)
qed

lemma marker_len_pos: "marker_len s = Some n \<Longrightarrow> 0 < n"
  using marker_len_Some by blast

lemma marker_len_extend: "marker_len a \<noteq> None \<Longrightarrow> marker_len (a @ b) \<noteq> None"
proof -
  assume "marker_len a \<noteq> None"
  then obtain n where "marker_len a = Some n" by blast
  from marker_len_Some [OF this] obtain ds w rest where
    *: "ds \<noteq> []" "\<forall>d\<in>set ds. isDigit d" "isWhiteSpace w" "a = ds @ CHR ''.'' # w # rest"
    by blast
  then have "a @ b = ds @ CHR ''.'' # w # (rest @ b)" by simp
  then show ?thesis using marker_len_shape [OF *(1-3), of "rest @ b"] by simp
qed

lemma marker_len_Nil: "marker_len [] = None"
  by (simp add: marker_len_def)

lemma split_loop_no_match:
  "\<lbrakk>\<forall>s n. m s = Some n \<longrightarrow> 0 < n; \<forall>a b. m a \<noteq> None \<longrightarrow> m (a @ b) \<noteq> None; m [] = None;
    \<forall>i<length cur. m (drop i cur @ rest) = None\<rbrakk>
   \<Longrightarrow> \<forall>f\<in>set (js_split_loop m cur rest). \<forall>i. m (drop i f) = None"
proof (induction m cur rest rule: js_split_loop.induct)
  case (1 m cur)
  have "m (drop i cur) = None" for i
  proof (cases "i < length cur")
    case True
    then show ?thesis using "1.prems"(4) by simp
  next
    case False
    then show ?thesis using "1.prems"(3) by simp
  qed
  then show ?case by simp
next
  case (2 m cur c cs)
  note pos = "2.prems"(1) and ext = "2.prems"(2) and nil = "2.prems"(3) and inv = "2.prems"(4)
  show ?case
  proof (cases "m (c # cs)")
    case None
    have "\<forall>i<length (cur @ [c]). m (drop i (cur @ [c]) @ cs) = None"
    proof (intro allI impI)
      fix i assume "i < length (cur @ [c])"
      then consider "i < length cur" | "i = length cur" by fastforce
      then show "m (drop i (cur @ [c]) @ cs) = None"
      proof cases
        case 1
        then show ?thesis using inv by simp
      next
        case 2
        then show ?thesis using None by simp
      qed
    qed
    then show ?thesis using "2.IH"(1) [OF None pos ext nil] None by simp
  next
    case (Some n)
    then have n: "0 < n" using pos by blast
    have cur: "m (drop i cur) = None" for i
    proof (cases "i < length cur")
      case True
      then have "m (drop i cur @ c # cs) = None" using inv by simp
      then show ?thesis using ext by blast
    next
      case False
      then show ?thesis by (simp add: nil)
    qed
    have "\<not> (n = 0 \<and> cur = [])" using n by simp
    then have "\<forall>f\<in>set (js_split_loop m [] (drop n (c # cs))). \<forall>i. m (drop i f) = None"
      using "2.IH"(3) [OF Some _ pos ext nil] by simp
    then show ?thesis using Some n cur by simp
  qed
qed

lemma record_split_no_marker:
  "\<forall>f\<in>set (record_split text). \<forall>i. marker_len (drop i f) = None"
proof (cases "text = []")
  case True
  then show ?thesis by (simp add: record_split_def js_split_def marker_len_Nil)
next
  case False
  have "\<forall>f\<in>set (js_split_loop marker_len [] text). \<forall>i. marker_len (drop i f) = None"
    using marker_len_pos marker_len_extend marker_len_Nil
    by (intro split_loop_no_match) auto
  then show ?thesis using False by (simp add: record_split_def js_split_def)
qed

lemma record_split_loop_whole:
  "\<forall>i. marker_len (drop i rest) = None \<Longrightarrow> js_split_loop marker_len cur rest = [cur @ rest]"
proof (induction rest arbitrary: cur)
  case Nil
  then show ?case by simp
next
  case (Cons c cs)
  have "marker_len (c # cs) = None" using Cons.prems [rule_format, of 0] by simp
  moreover have "\<forall>i. marker_len (drop i cs) = None"
    using Cons.prems [rule_format, of "Suc _"] by simp
  ultimately show ?case using Cons.IH [of "cur @ [c]"] by simp
qed

lemma length_record_split_loop:
  "length (js_split_loop marker_len cur rest) = Suc (count_markers rest)"
proof (induction rest arbitrary: cur rule: count_markers.induct)
  case 1
  then show ?case by simp
next
  case (2 c cs)
  show ?case
  proof (cases "marker_len (c # cs)")
    case None
    then show ?thesis using "2.IH"(1) by simp
  next
    case (Some n)
    then have "0 < n" by (rule marker_len_pos)
    then show ?thesis using Some "2.IH"(2) by simp
  qed
qed

lemma length_record_split: "length (record_split text) = Suc (count_markers text)"
  by (cases "text = []") (simp_all add: record_split_def js_split_def marker_len_Nil length_record_split_loop)

lemma record_split_marker_head:
  assumes "marker_len text = Some n"
  shows "record_split text = [] # js_split_loop marker_len [] (drop n text)"
proof -
  from assms have "0 < n" by (rule marker_len_pos)
  moreover from assms obtain c cs where "text = c # cs"
    by (cases "text") (simp_all add: marker_len_Nil)
  ultimately show ?thesis using assms by (simp add: record_split_def js_split_def)
qed



lemma record_split_loop: "record_split text = js_split_loop marker_len [] text"
  by (simp add: record_split_def js_split_def marker_len_Nil)

lemma split_loop_skip:
  "\<forall>i<length a. marker_len (drop i a @ rest) = None \<Longrightarrow>
   js_split_loop marker_len cur (a @ rest) = js_split_loop marker_len (cur @ a) rest"
proof (induction a arbitrary: cur)
  case Nil
  then show ?case by simp
next
  case (Cons c a)
  have "marker_len (c # a @ rest) = None" using Cons.prems [rule_format, of 0] by simp
  moreover have "\<forall>i<length a. marker_len (drop i a @ rest) = None"
    using Cons.prems [rule_format, of "Suc _"] by simp
  ultimately show ?case using Cons.IH [of "cur @ [c]"] by simp
qed

lemma record_split_at_marker:
  assumes "\<forall>i<length a. marker_len (drop i a @ rest) = None" and "marker_len rest = Some n"
  shows "record_split (a @ rest) = a # record_split (drop n rest)"
proof -
  from assms(2) have n: "0 < n" by (rule marker_len_pos)
  from assms(2) obtain c cs where rest: "rest = c # cs"
    by (cases rest) (simp_all add: marker_len_Nil)
  have "js_split_loop marker_len [] (a @ rest) = js_split_loop marker_len a rest"
    using split_loop_skip [OF assms(1), of "[]"] by simp
  also have "\<dots> = a # js_split_loop marker_len [] (drop n rest)"
    using assms(2) n unfolding rest by simp
  finally show ?thesis by (simp add: record_split_loop)
qed

lemma record_split_whole:
  "\<forall>i. marker_len (drop i text) = None \<Longrightarrow> record_split text = [text]"
  using record_split_loop_whole [of "text" "[]"] by (simp add: record_split_loop)

lemma all_drop_Nil: "(\<forall>i. P (drop i [])) = P []"
  by simp

lemma all_drop_Cons: "(\<forall>i. P (drop i (x # xs))) = (P (x # xs) \<and> (\<forall>i. P (drop i xs)))"
proof
  assume a: "\<forall>i. P (drop i (x # xs))"
  have "P (x # xs)" using a [rule_format, of 0] by simp
  moreover have "\<forall>i. P (drop i xs)" using a [rule_format, of "Suc _"] by simp
  ultimately show "P (x # xs) \<and> (\<forall>i. P (drop i xs))" ..
next
  assume a: "P (x # xs) \<and> (\<forall>i. P (drop i xs))"
  show "\<forall>i. P (drop i (x # xs))"
  proof
    fix i show "P (drop i (x # xs))" using a by (cases i) simp_all
  qed
qed

lemma all_less_drop_Cons:
  "(\<forall>i<length (x # xs). P (drop i (x # xs) @ r)) = (P (x # xs @ r) \<and> (\<forall>i<length xs. P (drop i xs @ r)))"
proof
  assume a: "\<forall>i<length (x # xs). P (drop i (x # xs) @ r)"
  have "P (x # xs @ r)" using a [rule_format, of 0] by simp
  moreover have "\<forall>i<length xs. P (drop i xs @ r)" using a [rule_format, of "Suc _"] by simp
  ultimately show "P (x # xs @ r) \<and> (\<forall>i<length xs. P (drop i xs @ r))" ..
next
  assume a: "P (x # xs @ r) \<and> (\<forall>i<length xs. P (drop i xs @ r))"
  show "\<forall>i<length (x # xs). P (drop i (x # xs) @ r)"
  proof (intro allI impI)
    fix i assume "i < length (x # xs)"
    then show "P (drop i (x # xs) @ r)" using a by (cases i) simp_all
  qed
qed

lemmas no_marker_Cons = all_drop_Cons [of "\<lambda>z. marker_len z = None"]

lemmas no_marker_Nil = all_drop_Nil [of "\<lambda>z. marker_len z = None"]

lemmas no_marker_before_Cons = all_less_drop_Cons [of _ _ "\<lambda>z. marker_len z = None"]

lemma no_marker_before_Nil: "\<forall>i<length []. marker_len (drop i [] @ r) = None"
  by simp

section \<open>Facts about the three parsers\<close>

lemma competitors_nonempty_fields:
  "c \<in> set (parseCompetitors text) \<Longrightarrow>
     Competitor.name c \<noteq> [] \<and> Competitor.description c \<noteq> [] \<and> headquarters c \<noteq> [] \<and> revenue c \<noteq> []"
  by (auto simp: parseCompetitors_def competitors_loop_eq competitor_complete_def as_Competitor_def
      truthy_get_prop)

lemma applications_nonempty_fields:
  "a \<in> set (parseApplications text) \<Longrightarrow>
     Application.name a \<noteq> [] \<and> Application.description a \<noteq> [] \<and> marketSize a \<noteq> [] \<and> growthRate a \<noteq> []"
  by (auto simp: parseApplications_def applications_loop_eq application_complete_def as_Application_def
      truthy_get_prop)

lemma personas_nonempty_fields:
  "p \<in> set (parseCustomerPersonas text customersText productName) \<Longrightarrow>
     CustomerPersona.name p \<noteq> [] \<and> CustomerPersona.description p \<noteq> [] \<and>
     caresMostAbout p \<noteq> [] \<and> caresLeastAbout p \<noteq> []"
  by (auto simp: parseCustomerPersonas_def personas_loop_eq persona_complete_def as_CustomerPersona_def
      truthy_get_prop)

lemma competitor_incomplete:
  "(lab, pr) \<in> set competitor_fields \<Longrightarrow> missing obj pr \<Longrightarrow> \<not> competitor_complete obj"
  unfolding competitor_fields_def competitor_complete_def truthy_missing by fastforce

lemma application_incomplete:
  "(lab, pr) \<in> set application_fields \<Longrightarrow> missing obj pr \<Longrightarrow> \<not> application_complete obj"
  unfolding application_fields_def application_complete_def truthy_missing by fastforce

lemma persona_incomplete:
  "(lab, pr) \<in> set persona_fields \<Longrightarrow> missing obj pr \<Longrightarrow> \<not> persona_complete obj"
  unfolding persona_fields_def persona_complete_def truthy_missing by fastforce

lemma competitors_loop_drops:
  "\<not> competitor_complete (competitor_of_section s) \<Longrightarrow>
   competitors_loop (pre @ s # post) acc = competitors_loop (pre @ post) acc"
  by (simp add: competitors_loop_eq)

lemma applications_loop_drops:
  "\<not> application_complete (application_of_section s) \<Longrightarrow>
   applications_loop (pre @ s # post) acc = applications_loop (pre @ post) acc"
  by (simp add: applications_loop_eq)

lemma personas_loop_drops:
  "\<not> persona_complete (persona_of_section s) \<Longrightarrow>
   personas_loop ct (pre @ s # post) acc = personas_loop ct (pre @ post) acc"
  by (simp add: personas_loop_eq)

lemma competitor_unlabelled:
  assumes "(lab, pr) \<in> set competitor_fields"
    and "\<forall>l\<in>set (split_char CHR 0x0A s). labelled lab l = None"
  shows "competitor_of_section s pr = None"
  unfolding competitor_of_section_def
  using foldl_keeps [of competitor_line pr "labelled lab", OF competitor_line_field [OF assms(1)] assms(2)]
  by simp

lemma application_unlabelled:
  assumes "(lab, pr) \<in> set application_fields"
    and "\<forall>l\<in>set (split_char CHR 0x0A s). labelled lab l = None"
  shows "application_of_section s pr = None"
  unfolding application_of_section_def
  using foldl_keeps [of application_line pr "labelled lab", OF application_line_field [OF assms(1)] assms(2)]
  by simp

lemma persona_unlabelled:
  assumes "(lab, pr) \<in> set persona_fields"
    and "\<forall>l\<in>set (split_char CHR 0x0A s). labelled lab l = None"
  shows "persona_of_section s pr = None"
  unfolding persona_of_section_def
  using foldl_keeps [of persona_line pr "labelled lab", OF persona_line_field [OF assms(1)] assms(2)]
  by simp

lemma loop_length_competitors: "length (competitors_loop secs []) \<le> length secs"
  by (simp add: competitors_loop_eq)

lemma loop_length_applications: "length (applications_loop secs []) \<le> length secs"
  by (simp add: applications_loop_eq)

lemma loop_length_personas: "length (personas_loop ct secs []) \<le> length secs"
  by (simp add: personas_loop_eq)

lemma record_split_after_marker:
  assumes "marker_len input = Some n"
  shows "\<exists>rest. record_split input = [] # rest \<and> length rest = count_markers input"
proof -
  from record_split_marker_head [OF assms] obtain rest where r: "record_split input = [] # rest"
    by blast
  then have "length rest = count_markers input"
    using length_record_split [of input] by simp
  with r show ?thesis by blast
qed


lemma entities_bounded_in_general:
  "length (parseCompetitors input) \<le> Suc (count_markers input)"
  "length (parseApplications input) \<le> Suc (count_markers input)"
  "length (parseCustomerPersonas input customersText productName) \<le> Suc (count_markers input)"
  using loop_length_competitors [of "record_split input"]
    loop_length_applications [of "record_split input"]
    loop_length_personas [of customersText "record_split input"]
  by (simp_all add: parseCompetitors_def parseApplications_def parseCustomerPersonas_def
      length_record_split)

section \<open>Facts about the customers of a persona and the templates\<close>

lemma customer_label_eq: "customer_label line = trim (takeWhile (\<lambda>c. c \<noteq> CHR ''-'') line)"
  unfolding customer_label_def by (subst split_char_unfold) simp

lemma relevantCustomers_eq:
  assumes "truthy (persona ''name'')"
  shows "relevantCustomers customersText persona =
     filter (\<lambda>label. label \<noteq> [])
       (map (\<lambda>line. trim (takeWhile (\<lambda>c. c \<noteq> CHR ''-'') line))
          (filter (\<lambda>line. includes_str (toLowerCase line) (toLowerCase (get_prop persona ''name'')))
             (split_char CHR 0x0A customersText)))"
proof -
  from assms obtain n where n: "persona ''name'' = Some n"
    by (auto simp: truthy_def split: option.splits)
  have "customer_label = (\<lambda>line. trim (takeWhile (\<lambda>c. c \<noteq> CHR ''-'') line))"
    by (rule ext) (rule customer_label_eq)
  then show ?thesis
    by (simp add: relevantCustomers_def n get_prop_def)
qed

lemma persona_in_output:
  assumes "p \<in> set (parseCustomerPersonas text customersText productName)"
  shows "\<exists>persona. persona_complete persona \<and>
           CustomerPersona.name p = get_prop persona ''name'' \<and>
           CustomerPersona.description p = get_prop persona ''description'' \<and>
           caresMostAbout p = get_prop persona ''caresMostAbout'' \<and>
           caresLeastAbout p = get_prop persona ''caresLeastAbout'' \<and>
           potentialCustomers p = relevantCustomers customersText persona \<and>
           salesEmail p = Some (generateSalesEmail (as_CustomerPersona persona (relevantCustomers customersText persona)) productName) \<and>
           discoveryEmail p = Some (generateDiscoveryEmail (as_CustomerPersona persona (relevantCustomers customersText persona)) productName)"
  using assms
  by (auto simp: parseCustomerPersonas_def personas_loop_eq as_CustomerPersona_def)

lemma potential_customers_eq:
  assumes "p \<in> set (parseCustomerPersonas text customersText productName)"
  shows "potentialCustomers p =
       filter (\<lambda>label. label \<noteq> [])
         (map (\<lambda>line. trim (takeWhile (\<lambda>c. c \<noteq> CHR ''-'') line))
            (filter (\<lambda>line. includes_str (toLowerCase line) (toLowerCase (CustomerPersona.name p)))
               (split_char CHR 0x0A customersText)))"
proof -
  from persona_in_output [OF assms] obtain persona where
    c: "persona_complete persona" and n: "CustomerPersona.name p = get_prop persona ''name''"
    and r: "potentialCustomers p = relevantCustomers customersText persona"
    by blast
  from c have "truthy (persona ''name'')" by (simp add: persona_complete_def)
  then show ?thesis unfolding r n by (rule relevantCustomers_eq)
qed

lemma sales_email_cong:
  "CustomerPersona.name p = CustomerPersona.name q \<Longrightarrow> caresMostAbout p = caresMostAbout q \<Longrightarrow>
   caresLeastAbout p = caresLeastAbout q \<Longrightarrow>
   generateSalesEmail p productName = generateSalesEmail q productName"
  by (simp only: generateSalesEmail_def)

lemma discovery_email_cong:
  "CustomerPersona.name p = CustomerPersona.name q \<Longrightarrow> caresMostAbout p = caresMostAbout q \<Longrightarrow>
   generateDiscoveryEmail p productName = generateDiscoveryEmail q productName"
  by (simp only: generateDiscoveryEmail_def)

lemma stored_emails:
  assumes "r \<in> set (parseCustomerPersonas text customersText productName)"
  shows "salesEmail r = Some (generateSalesEmail r productName) \<and>
         discoveryEmail r = Some (generateDiscoveryEmail r productName)"
proof -
  from persona_in_output [OF assms] obtain persona where
    n: "CustomerPersona.name r = get_prop persona ''name''"
    and m: "caresMostAbout r = get_prop persona ''caresMostAbout''"
    and l: "caresLeastAbout r = get_prop persona ''caresLeastAbout''"
    and s: "salesEmail r = Some (generateSalesEmail (as_CustomerPersona persona (relevantCustomers customersText persona)) productName)"
    and d: "discoveryEmail r = Some (generateDiscoveryEmail (as_CustomerPersona persona (relevantCustomers customersText persona)) productName)"
    by blast
  let ?q = "as_CustomerPersona persona (relevantCustomers customersText persona)"
  have q: "CustomerPersona.name r = CustomerPersona.name ?q" "caresMostAbout r = caresMostAbout ?q"
    "caresLeastAbout r = caresLeastAbout ?q"
    by (simp_all add: n m l as_CustomerPersona_def)
  have "generateSalesEmail r productName = generateSalesEmail ?q productName"
    by (rule sales_email_cong) (rule q)+
  moreover have "generateDiscoveryEmail r productName = generateDiscoveryEmail ?q productName"
    by (rule discovery_email_cong) (rule q)+
  ultimately show ?thesis using s d by simp
qed



section \<open>Facts about the section splitter\<close>












section \<open>The example texts, evaluated\<close>

lemma example_competitors_parsed:
  "parseCompetitors example_competitors =
     [\<lparr>Competitor.name = ''Acme'', description = ''Tools'', headquarters = ''Berlin, Germany'',
        revenue = ''$12B (2023:est.)''\<rparr>]"
  by code_simp

lemma example_bolt_lines:
  "split_char CHR 0x0A example_bolt = [''Name: Bolt'', ''Description: Screws'', ''Revenue: $1M'', []]"
  by code_simp

lemma example_bolt_unlabelled:
  "labelled ''headquarters'' ''Name: Bolt'' = None" "labelled ''headquarters'' ''Description: Screws'' = None"
  "labelled ''headquarters'' ''Revenue: $1M'' = None" "labelled ''headquarters'' [] = None"
  by code_simp+

lemma example_competitors_marker: "marker_len example_competitors = Some 3"
  by code_simp

lemma example_competitors_count: "count_markers example_competitors = 3"
  by code_simp

lemma example_acme_unnumbered:
  "count_markers example_acme = 0" "length (parseCompetitors example_acme) = 1"
  by code_simp+



lemma example_persona_names:
  "map CustomerPersona.name (parseCustomerPersonas example_personas example_customers ''Widget'') = [''VP of Sales'']"
  by code_simp

lemma example_persona_customers:
  "filter (\<lambda>label. label \<noteq> [])
         (map (\<lambda>line. trim (takeWhile (\<lambda>c. c \<noteq> CHR ''-'') line))
            (filter (\<lambda>line. includes_str (toLowerCase line) (toLowerCase ''VP of Sales''))
               (split_char CHR 0x0A example_customers)))
   = [''1. VP of Sales at Acme'', ''3. vp of sales, Initech'']"
  by code_simp

lemma example_persona_hd:
  "hd (parseCustomerPersonas example_personas example_customers ''Widget'')
     \<in> set (parseCustomerPersonas example_personas example_customers ''Widget'')"
  "CustomerPersona.name (hd (parseCustomerPersonas example_personas example_customers ''Widget'')) = ''VP of Sales''"
proof -
  let ?ps = "parseCustomerPersonas example_personas example_customers ''Widget''"
  from example_persona_names have ne: "?ps \<noteq> []" by auto
  then show "hd ?ps \<in> set ?ps" by simp
  from ne have "hd (map CustomerPersona.name ?ps) = CustomerPersona.name (hd ?ps)"
    by (simp add: hd_map)
  then show "CustomerPersona.name (hd ?ps) = ''VP of Sales''"
    unfolding example_persona_names by simp
qed

lemma example_customers_line:
  "''3. vp of sales, Initech'' \<in> set (split_char CHR 0x0A example_customers)"
  "includes_str (toLowerCase ''3. vp of sales, Initech'') (toLowerCase ''VP of Sales'')"
  "trim ''3. vp of sales, Initech'' = ''3. vp of sales, Initech''"
  by code_simp+

lemma example_subject:
  "subject_line (generateDiscoveryEmail example_persona ''Widget'')
     = ''Subject: Quick question about your VP of Sales challenges''"
  by code_simp




section \<open>C1: every entity is complete\<close>

text \<open>
  C1. For every input text, every entity in the lists that the three parsers return has
  all of its required string fields non-empty. A sub-record whose field mapping misses a
  required property (it is unset or empty), and so a sub-record none of whose lines
  carries the label of a required property, adds no entity: the outer loop of the parser
  gives the same list with that sub-record and without it.
\<close>

theorem entities_are_complete:
  "(\<forall>c\<in>set (parseCompetitors text).
      Competitor.name c \<noteq> [] \<and> Competitor.description c \<noteq> [] \<and> headquarters c \<noteq> [] \<and> revenue c \<noteq> [])
   \<and> (\<forall>a\<in>set (parseApplications text).
      Application.name a \<noteq> [] \<and> Application.description a \<noteq> [] \<and> marketSize a \<noteq> [] \<and> growthRate a \<noteq> [])
   \<and> (\<forall>p\<in>set (parseCustomerPersonas text customersText productName).
      CustomerPersona.name p \<noteq> [] \<and> CustomerPersona.description p \<noteq> [] \<and>
      caresMostAbout p \<noteq> [] \<and> caresLeastAbout p \<noteq> [])
   \<and> ((lab, pr) \<in> set competitor_fields \<and>
        (missing (competitor_of_section s) pr \<or> (\<forall>l\<in>set (split_char CHR 0x0A s). labelled lab l = None))
      \<longrightarrow> competitors_loop (pre @ s # post) cs = competitors_loop (pre @ post) cs)
   \<and> ((lab, pr) \<in> set application_fields \<and>
        (missing (application_of_section s) pr \<or> (\<forall>l\<in>set (split_char CHR 0x0A s). labelled lab l = None))
      \<longrightarrow> applications_loop (pre @ s # post) as = applications_loop (pre @ post) as)
   \<and> ((lab, pr) \<in> set persona_fields \<and>
        (missing (persona_of_section s) pr \<or> (\<forall>l\<in>set (split_char CHR 0x0A s). labelled lab l = None))
      \<longrightarrow> personas_loop customersText (pre @ s # post) ps = personas_loop customersText (pre @ post) ps)"
proof -
  have 1: "\<forall>c\<in>set (parseCompetitors text).
      Competitor.name c \<noteq> [] \<and> Competitor.description c \<noteq> [] \<and> headquarters c \<noteq> [] \<and> revenue c \<noteq> []"
    using competitors_nonempty_fields by blast
  have 2: "\<forall>a\<in>set (parseApplications text).
      Application.name a \<noteq> [] \<and> Application.description a \<noteq> [] \<and> marketSize a \<noteq> [] \<and> growthRate a \<noteq> []"
    using applications_nonempty_fields by blast
  have 3: "\<forall>p\<in>set (parseCustomerPersonas text customersText productName).
      CustomerPersona.name p \<noteq> [] \<and> CustomerPersona.description p \<noteq> [] \<and>
      caresMostAbout p \<noteq> [] \<and> caresLeastAbout p \<noteq> []"
    using personas_nonempty_fields by blast
  have 4: "(lab, pr) \<in> set competitor_fields \<and>
        (missing (competitor_of_section s) pr \<or> (\<forall>l\<in>set (split_char CHR 0x0A s). labelled lab l = None))
      \<longrightarrow> competitors_loop (pre @ s # post) cs = competitors_loop (pre @ post) cs"
  proof
    assume a: "(lab, pr) \<in> set competitor_fields \<and>
        (missing (competitor_of_section s) pr \<or> (\<forall>l\<in>set (split_char CHR 0x0A s). labelled lab l = None))"
    then have "missing (competitor_of_section s) pr"
      using competitor_unlabelled [of lab pr s] by (auto simp: missing_def)
    then show "competitors_loop (pre @ s # post) cs = competitors_loop (pre @ post) cs"
      using a competitor_incomplete competitors_loop_drops by blast
  qed
  have 5: "(lab, pr) \<in> set application_fields \<and>
        (missing (application_of_section s) pr \<or> (\<forall>l\<in>set (split_char CHR 0x0A s). labelled lab l = None))
      \<longrightarrow> applications_loop (pre @ s # post) as = applications_loop (pre @ post) as"
  proof
    assume a: "(lab, pr) \<in> set application_fields \<and>
        (missing (application_of_section s) pr \<or> (\<forall>l\<in>set (split_char CHR 0x0A s). labelled lab l = None))"
    then have "missing (application_of_section s) pr"
      using application_unlabelled [of lab pr s] by (auto simp: missing_def)
    then show "applications_loop (pre @ s # post) as = applications_loop (pre @ post) as"
      using a application_incomplete applications_loop_drops by blast
  qed
  have 6: "(lab, pr) \<in> set persona_fields \<and>
        (missing (persona_of_section s) pr \<or> (\<forall>l\<in>set (split_char CHR 0x0A s). labelled lab l = None))
      \<longrightarrow> personas_loop customersText (pre @ s # post) ps = personas_loop customersText (pre @ post) ps"
  proof
    assume a: "(lab, pr) \<in> set persona_fields \<and>
        (missing (persona_of_section s) pr \<or> (\<forall>l\<in>set (split_char CHR 0x0A s). labelled lab l = None))"
    then have "missing (persona_of_section s) pr"
      using persona_unlabelled [of lab pr s] by (auto simp: missing_def)
    then show "personas_loop customersText (pre @ s # post) ps = personas_loop customersText (pre @ post) ps"
      using a persona_incomplete personas_loop_drops by blast
  qed
  show ?thesis
    by (rule conjI [OF 1 conjI [OF 2 conjI [OF 3 conjI [OF 4 conjI [OF 5 6]]]]])
qed

theorem entities_are_complete_witness:
  "revenue (hd (parseCompetitors example_competitors)) \<noteq> [] \<and>
   competitors_loop [example_acme, example_bolt] [] = competitors_loop [example_acme] []"
proof -
  note T = entities_are_complete [of example_competitors _ _ "''headquarters''" "''headquarters''"
      example_bolt "[example_acme]" "[]" "[]"]
  have "hd (parseCompetitors example_competitors) \<in> set (parseCompetitors example_competitors)"
    unfolding example_competitors_parsed by simp
  then have 1: "revenue (hd (parseCompetitors example_competitors)) \<noteq> []"
    using T [THEN conjunct1] by blast
  have "(''headquarters'', ''headquarters'') \<in> set competitor_fields"
    by (simp add: competitor_fields_def)
  moreover have "\<forall>l\<in>set (split_char CHR 0x0A example_bolt). labelled ''headquarters'' l = None"
    unfolding example_bolt_lines using example_bolt_unlabelled by simp
  ultimately have "competitors_loop ([example_acme] @ example_bolt # []) [] = competitors_loop ([example_acme] @ []) []"
    using T [THEN conjunct2, THEN conjunct2, THEN conjunct2, THEN conjunct1] by blast
  then show ?thesis using 1 by simp
qed

section \<open>C2: one line is split on every colon\<close>




section \<open>C3: the numbered marker is consumed by the split\<close>

text \<open>
  Claim C3 says that the split on the numbered marker is a look-ahead that consumes
  nothing, so that every fragment keeps its marker. The expression of the parsers,
  \<^verbatim>\<open>/\d+\.\s+/\<close>, is no look-ahead (that of the section splitter is): the markers
  \<^verbatim>\<open>"1. "\<close> and \<^verbatim>\<open>"2. "\<close> are gone from the fragments. The labels of the parsers rely on
  it: a fragment that kept its marker would start with the key \<^verbatim>\<open>"1. Name"\<close>.
\<close>

theorem record_split_counterexample:
  "record_split (''1. Name: A'' @ [CHR 0x0A] @ ''2. Name: B'') = [[], ''Name: A'' @ [CHR 0x0A], ''Name: B'']"
  by code_simp

text \<open>
  C3, as the program has it: the text in front of the first marker is one fragment,
  whatever line ends it holds; the marker itself is dropped, and the text behind it is
  split in the same way. A text without a marker is one fragment, unchanged. No fragment
  holds a marker at any position.
\<close>

theorem record_split_consumes_marker:
  "((\<forall>i<length a. marker_len (drop i a @ rest) = None) \<and> marker_len rest = Some n
      \<longrightarrow> record_split (a @ rest) = a # record_split (drop n rest))
   \<and> ((\<forall>i. marker_len (drop i text) = None) \<longrightarrow> record_split text = [text])
   \<and> (\<forall>f\<in>set (record_split text). \<forall>i. marker_len (drop i f) = None)"
  using record_split_at_marker [of a rest n] record_split_whole [of "text"] record_split_no_marker [of "text"]
  by blast

theorem record_split_consumes_marker_witness:
  "record_split (''Intro'' @ [CHR 0x0A] @ ''12. Name: A'') = (''Intro'' @ [CHR 0x0A]) # [''Name: A'']
   \<and> marker_len ''Name: A'' = None"
proof -
  have m: "marker_len ''12. Name: A'' = Some 4" by code_simp
  have a: "\<forall>i<length (''Intro'' @ [CHR 0x0A]). marker_len (drop i (''Intro'' @ [CHR 0x0A]) @ ''12. Name: A'') = None"
    apply (simp only: append.simps no_marker_before_Cons no_marker_before_Nil)
    apply (simp add: marker_len_def isDigit_def)
    done
  have w: "\<forall>i. marker_len (drop i ''Name: A'') = None"
    apply (simp only: no_marker_Cons no_marker_Nil)
    apply (simp add: marker_len_def isDigit_def)
    done
  have d: "drop 4 ''12. Name: A'' = ''Name: A''" by simp
  from record_split_consumes_marker [of "''Intro'' @ [CHR 0x0A]" "''12. Name: A''" 4 "''Name: A''"] m a w
  have "record_split ((''Intro'' @ [CHR 0x0A]) @ ''12. Name: A'') = (''Intro'' @ [CHR 0x0A]) # record_split (drop 4 ''12. Name: A'')"
    and "record_split ''Name: A'' = [''Name: A'']"
    and "\<forall>f\<in>set (record_split ''Name: A''). \<forall>i. marker_len (drop i f) = None"
    by blast+
  then show ?thesis using w [rule_format, of 0] unfolding d by simp
qed

section \<open>C4: no more entities than numbered markers\<close>

text \<open>
  C4. A section fragment of a well-formed text is empty (its heading is absent) or
  starts with its numbered heading. For such a fragment each of the three parsers returns
  at most as many entities as the fragment has numbered markers. (For any text at all the
  bound is one more, lemma \<open>entities_bounded_in_general\<close>: a record in front of the first
  marker is read as well, as \<open>example_acme_unnumbered\<close> shows.)
\<close>

theorem entities_bounded_by_markers:
  assumes "input = [] \<or> marker_len input \<noteq> None"
  shows "length (parseCompetitors input) \<le> count_markers input \<and>
         length (parseApplications input) \<le> count_markers input \<and>
         length (parseCustomerPersonas input customersText productName) \<le> count_markers input"
proof (cases "input = []")
  case True
  then show ?thesis
    by (simp add: parseCompetitors_def parseApplications_def parseCustomerPersonas_def
        record_split_loop trim_Nil)
next
  case False
  with assms obtain n where "marker_len input = Some n" by blast
  from record_split_after_marker [OF this] obtain rest where
    r: "record_split input = [] # rest" and l: "length rest = count_markers input"
    by blast
  have "length (competitors_loop rest []) \<le> count_markers input"
    using loop_length_competitors [of rest] l by simp
  moreover have "length (applications_loop rest []) \<le> count_markers input"
    using loop_length_applications [of rest] l by simp
  moreover have "length (personas_loop customersText rest []) \<le> count_markers input"
    using loop_length_personas [of customersText rest] l by simp
  ultimately show ?thesis
    by (simp add: parseCompetitors_def parseApplications_def parseCustomerPersonas_def r trim_Nil)
qed

theorem entities_bounded_by_markers_witness:
  "marker_len example_competitors = Some 3 \<and>
   length (parseCompetitors example_competitors) = 1 \<and>
   count_markers example_competitors = 3 \<and>
   length (parseCompetitors example_competitors) \<le> count_markers example_competitors"
  using entities_bounded_by_markers [of example_competitors] example_competitors_marker
    example_competitors_count example_competitors_parsed
  by simp

section \<open>C5: the potential customers of a persona\<close>

text \<open>
  C5. For every persona that the parser returns, \<open>potentialCustomers\<close> is, in the order
  of the lines and with duplicates kept, the trimmed text before the first \<^verbatim>\<open>-\<close> of each
  line of the customers fragment whose text in lower case contains the name of the persona
  in lower case, without the labels that are empty. The sequence is a function of the name
  of the persona and of the customers fragment alone, so each persona is matched on its
  own and one line may go to several personas; a persona that no line matches gets the
  empty sequence.
\<close>

theorem potential_customers_of_persona:
  "\<forall>p\<in>set (parseCustomerPersonas text customersText productName).
     potentialCustomers p =
       filter (\<lambda>label. label \<noteq> [])
         (map (\<lambda>line. trim (takeWhile (\<lambda>c. c \<noteq> CHR ''-'') line))
            (filter (\<lambda>line. includes_str (toLowerCase line) (toLowerCase (CustomerPersona.name p)))
               (split_char CHR 0x0A customersText)))
     \<and> ((\<forall>line\<in>set (split_char CHR 0x0A customersText).
            \<not> includes_str (toLowerCase line) (toLowerCase (CustomerPersona.name p)))
          \<longrightarrow> potentialCustomers p = [])"
proof
  fix p assume p: "p \<in> set (parseCustomerPersonas text customersText productName)"
  note e = potential_customers_eq [OF p]
  have "potentialCustomers p = []"
    if "\<forall>line\<in>set (split_char CHR 0x0A customersText).
            \<not> includes_str (toLowerCase line) (toLowerCase (CustomerPersona.name p))"
  proof -
    from that have "filter (\<lambda>line. includes_str (toLowerCase line) (toLowerCase (CustomerPersona.name p)))
               (split_char CHR 0x0A customersText) = []"
      by (simp add: filter_empty_conv)
    then show ?thesis unfolding e by simp
  qed
  with e show "potentialCustomers p =
       filter (\<lambda>label. label \<noteq> [])
         (map (\<lambda>line. trim (takeWhile (\<lambda>c. c \<noteq> CHR ''-'') line))
            (filter (\<lambda>line. includes_str (toLowerCase line) (toLowerCase (CustomerPersona.name p)))
               (split_char CHR 0x0A customersText)))
     \<and> ((\<forall>line\<in>set (split_char CHR 0x0A customersText).
            \<not> includes_str (toLowerCase line) (toLowerCase (CustomerPersona.name p)))
          \<longrightarrow> potentialCustomers p = [])"
    by blast
qed

theorem potential_customers_of_persona_witness:
  "potentialCustomers (hd (parseCustomerPersonas example_personas example_customers ''Widget''))
     = [''1. VP of Sales at Acme'', ''3. vp of sales, Initech'']"
  using bspec [OF potential_customers_of_persona example_persona_hd(1), THEN conjunct1]
  unfolding example_persona_hd(2) example_persona_customers .

section \<open>C6: the templates are deterministic\<close>

text \<open>
  C6. The two renderers are functions of the persona and the product name: equal
  arguments give equal strings, and the templates stored with each persona that the
  parser returns are the renderers' results for that persona and the product name. The
  discovery email, and with it its subject line, does not change when only
  \<open>caresLeastAbout\<close> changes.
\<close>

theorem templates_are_deterministic:
  "(p = q \<and> productName = productName' \<longrightarrow>
      generateSalesEmail p productName = generateSalesEmail q productName' \<and>
      generateDiscoveryEmail p productName = generateDiscoveryEmail q productName')
   \<and> generateDiscoveryEmail (p\<lparr>caresLeastAbout := x\<rparr>) productName = generateDiscoveryEmail p productName
   \<and> subject_line (generateDiscoveryEmail (p\<lparr>caresLeastAbout := x\<rparr>) productName)
       = subject_line (generateDiscoveryEmail p productName)
   \<and> (\<forall>r\<in>set (parseCustomerPersonas text customersText productName).
        salesEmail r = Some (generateSalesEmail r productName) \<and>
        discoveryEmail r = Some (generateDiscoveryEmail r productName))"
proof -
  have 1: "generateDiscoveryEmail (p\<lparr>caresLeastAbout := x\<rparr>) productName = generateDiscoveryEmail p productName"
    by (rule discovery_email_cong) simp_all
  have 2: "\<forall>r\<in>set (parseCustomerPersonas text customersText productName).
        salesEmail r = Some (generateSalesEmail r productName) \<and>
        discoveryEmail r = Some (generateDiscoveryEmail r productName)"
    using stored_emails by blast
  show ?thesis using 1 2 by simp
qed

theorem templates_are_deterministic_witness:
  "subject_line (generateDiscoveryEmail (example_persona\<lparr>caresLeastAbout := ''price''\<rparr>) ''Widget'')
     = ''Subject: Quick question about your VP of Sales challenges''
   \<and> generateSalesEmail example_persona ''Widget'' =
       generateSalesEmail
         \<lparr> CustomerPersona.name = ''VP of Sales'',
           CustomerPersona.description = ''Runs the sales team'',
           caresMostAbout = ''pipeline growth, forecast accuracy'',
           caresLeastAbout = ''implementation details'',
           potentialCustomers = [], salesEmail = None, discoveryEmail = None \<rparr> ''Widget''
   \<and> salesEmail (hd (parseCustomerPersonas example_personas example_customers ''Widget''))
       = Some (generateSalesEmail (hd (parseCustomerPersonas example_personas example_customers ''Widget'')) ''Widget'')"
proof -
  let ?q = "\<lparr> CustomerPersona.name = ''VP of Sales'',
           CustomerPersona.description = ''Runs the sales team'',
           caresMostAbout = ''pipeline growth, forecast accuracy'',
           caresLeastAbout = ''implementation details'',
           potentialCustomers = [], salesEmail = None, discoveryEmail = None \<rparr>"
  note T = templates_are_deterministic [of example_persona ?q "''Widget''" "''Widget''"
      "''price''" example_personas example_customers]
  have 1: "subject_line (generateDiscoveryEmail (example_persona\<lparr>caresLeastAbout := ''price''\<rparr>) ''Widget'')
     = ''Subject: Quick question about your VP of Sales challenges''"
    using T [THEN conjunct2, THEN conjunct2, THEN conjunct1] unfolding example_subject .
  have "example_persona = ?q \<and> ''Widget'' = ''Widget''"
    by (simp only: example_persona_def)
  then have 2: "generateSalesEmail example_persona ''Widget'' = generateSalesEmail ?q ''Widget''"
    using T [THEN conjunct1] by blast
  have 3: "salesEmail (hd (parseCustomerPersonas example_personas example_customers ''Widget''))
       = Some (generateSalesEmail (hd (parseCustomerPersonas example_personas example_customers ''Widget'')) ''Widget'')"
    using T [THEN conjunct2, THEN conjunct2, THEN conjunct2] example_persona_hd(1) by blast
  show ?thesis by (rule conjI [OF 1 conjI [OF 2 3]])
qed
section \<open>C7: an absent section gives an empty list\<close>



section \<open>C8: what the templates substitute\<close>



section \<open>C9: the last line of a label wins\<close>



section \<open>C10: a matching line without a dash\<close>

text \<open>
  C10. A line of the customers fragment that contains the name of a returned persona, both
  in lower case, and has no \<^verbatim>\<open>-\<close> gives its whole trimmed text as the label, and that
  label is among the potential customers of the persona when it is not empty.
\<close>

theorem line_without_dash:
  assumes "p \<in> set (parseCustomerPersonas text customersText productName)"
    and "line \<in> set (split_char CHR 0x0A customersText)"
    and "includes_str (toLowerCase line) (toLowerCase (CustomerPersona.name p))"
    and "CHR ''-'' \<notin> set line"
    and "trim line \<noteq> []"
  shows "customer_label line = trim line \<and> trim line \<in> set (potentialCustomers p)"
proof -
  from assms(4) have "takeWhile (\<lambda>c. c \<noteq> CHR ''-'') line = line"
    by (induction line) auto
  then have t: "trim (takeWhile (\<lambda>c. c \<noteq> CHR ''-'') line) = trim line"
    by (simp only:)
  then have l: "customer_label line = trim line"
    by (simp only: customer_label_eq)
  let ?g = "\<lambda>line. trim (takeWhile (\<lambda>c. c \<noteq> CHR ''-'') line)"
  let ?relevant = "filter (\<lambda>line. includes_str (toLowerCase line) (toLowerCase (CustomerPersona.name p)))
               (split_char CHR 0x0A customersText)"
  have "line \<in> set ?relevant" using assms(2,3) by simp
  then have "?g line \<in> ?g ` set ?relevant" by (rule imageI)
  moreover have "?g line \<noteq> []" using assms(5) t by simp
  ultimately have "?g line \<in> set (filter (\<lambda>label. label \<noteq> []) (map ?g ?relevant))"
    by (simp only: set_filter set_map) blast
  then have "trim (takeWhile (\<lambda>c. c \<noteq> CHR ''-'') line) \<in> set (potentialCustomers p)"
    unfolding potential_customers_eq [OF assms(1)] .
  then show ?thesis using l t by simp
qed

theorem line_without_dash_witness:
  "customer_label ''3. vp of sales, Initech'' = ''3. vp of sales, Initech'' \<and>
   ''3. vp of sales, Initech''
     \<in> set (potentialCustomers (hd (parseCustomerPersonas example_personas example_customers ''Widget'')))"
proof -
  have d: "CHR ''-'' \<notin> set ''3. vp of sales, Initech''" by simp
  have n: "trim ''3. vp of sales, Initech'' \<noteq> []" unfolding example_customers_line(3) by simp
  show ?thesis
    using line_without_dash [OF example_persona_hd(1) example_customers_line(1) _ d n]
      example_customers_line(2)
    unfolding example_persona_hd(2) example_customers_line(3) by simp
qed

end
